theory Spec2Isabelle
  imports Complex_Main
begin

section \<open>Data model of sentry.tasks.check_alerts\<close>

text \<open>
  The module is Python 2 with \<open>from __future__ import division\<close>: \<open>/\<close> is true
  division and yields a float. Python's unbounded integers are \<open>int\<close>. A division by
  the float or integer zero raises \<open>ZeroDivisionError\<close>, \<open>math.sqrt\<close> of a negative
  number raises \<open>ValueError\<close>; both are values of \<open>error\<close> here.
\<close>

datatype error = ZeroDivisionError | ValueError

section \<open>Double precision arithmetic\<close>

text \<open>
  A Python float is an IEEE 754 double: a real number with a significand of 53 bits.
  Every operation returns the exact result rounded to the nearest double, ties to the
  even significand. \<open>expo x\<close> is the binary exponent of \<open>x\<close>, \<open>ulp x\<close> the distance
  between neighbouring doubles at \<open>x\<close>, \<open>rnd x\<close> the double nearest to \<open>x\<close>. The
  exponent is not bounded here: overflow (\<open>OverflowError\<close>, \<open>inf\<close>) and subnormal
  numbers are not modelled, so the model is that of the code on numbers of database
  size, where no operation of the module leaves the normal range.
\<close>

definition expo :: "real \<Rightarrow> int" where
  "expo x = \<lfloor>log 2 \<bar>x\<bar>\<rfloor>"

definition ulp :: "real \<Rightarrow> real" where
  "ulp x = 2 powr (real_of_int (expo x) - 52)"

definition round_even :: "real \<Rightarrow> int" where
  "round_even y =
     (let f = \<lfloor>y\<rfloor>
      in if y - real_of_int f < 1 / 2 then f
         else if y - real_of_int f > 1 / 2 then f + 1
         else if even f then f else f + 1)"

definition rnd :: "real \<Rightarrow> real" where
  "rnd x = (if x = 0 then 0 else real_of_int (round_even (x / ulp x)) * ulp x)"

text \<open>
  \<open>float(k)\<close> and the conversion of an integer operand of a float operation; the
  operations on floats; \<open>k / n\<close> on two integers, which is the exact quotient rounded
  once; \<open>x ** 2\<close> and \<open>math.sqrt\<close>, taken as correctly rounded.
\<close>

definition float_of_int :: "int \<Rightarrow> real" where
  "float_of_int k = rnd (real_of_int k)"

definition float_add :: "real \<Rightarrow> real \<Rightarrow> real" where
  "float_add a b = rnd (a + b)"

definition float_sub :: "real \<Rightarrow> real \<Rightarrow> real" where
  "float_sub a b = rnd (a - b)"

definition float_mul :: "real \<Rightarrow> real \<Rightarrow> real" where
  "float_mul a b = rnd (a * b)"

definition float_div :: "real \<Rightarrow> real \<Rightarrow> real" where
  "float_div a b = rnd (a / b)"

definition int_true_div :: "int \<Rightarrow> int \<Rightarrow> real" where
  "int_true_div k n = rnd (real_of_int k / real_of_int n)"

definition float_sqr :: "real \<Rightarrow> real" where
  "float_sqr a = rnd (a ^ 2)"

definition float_sqrt :: "real \<Rightarrow> real" where
  "float_sqrt a = rnd (sqrt a)"

section \<open>Dates, rows and tasks\<close>

text \<open>
  A \<open>datetime\<close> is its number of microseconds since the epoch, a \<open>timedelta\<close> a number
  of microseconds. \<open>timedelta.seconds\<close> is the seconds field of the normalised
  (days, seconds, microseconds) triple, so it lies in \<open>0..86399\<close> and drops whole days.
\<close>

type_synonym datetime = int

definition timedelta_minutes :: "int \<Rightarrow> int" where
  "timedelta_minutes m = m * 60000000"

definition seconds :: "int \<Rightarrow> int" where
  "seconds delta = (delta div 1000000) mod 86400"

text \<open>
  A row of \<open>ProjectCountByMinute\<close>. The model class is not part of the sources; the
  lookups \<open>count\<close> and \<open>times_seen\<close> of the two queries both read the event count of
  the bucket.
\<close>

record bucket =
  project_id :: nat
  date :: datetime
  times_seen :: int

text \<open>The keyword arguments of one \<open>maybe_delay(check_project_alerts, ...)\<close> call.\<close>

record task =
  task_project_id :: nat
  task_when :: datetime
  task_count :: int
  task_expires :: int

text \<open>
  What \<open>check_project_alerts\<close> does when it does not raise: it returns, or it calls
  \<open>Alert.maybe_alert\<close> for the project with the two numbers that the message formats
  with \<open>%d\<close> (previous, count).
\<close>

datatype outcome = NoAlert | MaybeAlert nat int int

section \<open>Python primitives\<close>

text \<open>\<open>int(x)\<close> of a float truncates towards zero; so does \<open>%d\<close>.\<close>

definition py_int :: "real \<Rightarrow> int" where
  "py_int x = (if 0 \<le> x then \<lfloor>x\<rfloor> else \<lceil>x\<rceil>)"

text \<open>
  An option value is a number or \<open>None\<close> (unset). Truthiness: \<open>None\<close> and \<open>0\<close> are
  false. Python 2 orders \<open>None\<close> below every number.
\<close>

definition truthy :: "int option \<Rightarrow> bool" where
  "truthy v = (case v of None \<Rightarrow> False | Some n \<Rightarrow> n \<noteq> 0)"

definition opt_gt_int :: "int option \<Rightarrow> int \<Rightarrow> bool" where
  "opt_gt_int v count = (case v of None \<Rightarrow> False | Some n \<Rightarrow> n > count)"

definition real_gt_opt :: "real \<Rightarrow> int option \<Rightarrow> bool" where
  "real_gt_opt x v = (case v of None \<Rightarrow> True | Some n \<Rightarrow> x > real_of_int n)"

section \<open>meanstdv\<close>

text \<open>
  The list is a list of integers (the \<open>times_seen\<close> of the historical rows). The first
  loop adds integers, so \<open>mean\<close> is an integer until it is divided by \<open>float(n)\<close>; in
  the second loop \<open>std\<close> is a float from the first addition on.
\<close>

definition meanstdv :: "int list \<Rightarrow> error + real \<times> real" where
  "meanstdv x =
     (let n = int (length x);
          total = fold (\<lambda>a mean. mean + a) x 0
      in if n = 0 then Inl ZeroDivisionError
         else
           let mean = float_div (float_of_int total) (float_of_int n);
               std = fold (\<lambda>a std. float_add std (float_sqr (float_sub (float_of_int a) mean)))
                       x 0
           in if n - 1 = 0 then Inl ZeroDivisionError
              else if float_div std (float_of_int (n - 1)) < 0 then Inl ValueError
              else Inr (mean, float_sqrt (float_div std (float_of_int (n - 1)))))"




section \<open>check_alerts\<close>

text \<open>
  \<open>MINUTE_NORMALIZATION\<close> (imported from sentry.constants, not part of the sources) is
  the parameter \<open>mn\<close>; \<open>timezone.now()\<close> is the parameter \<open>whn\<close>; the table is the list
  \<open>store\<close> of its rows.
\<close>

definition normalized_count :: "datetime \<Rightarrow> datetime \<Rightarrow> int \<Rightarrow> int" where
  "normalized_count whn d count =
     py_int (float_div (float_of_int count) (int_true_div (seconds (whn - d) + 1) 60))"

text \<open>
  The formula of the specification, for comparison with \<open>normalized_count\<close>:
  raw_count / ceil(elapsed_seconds / 60), truncated, with elapsed_seconds at least 1.
\<close>

definition spec_normalized_rate :: "int \<Rightarrow> int \<Rightarrow> int" where
  "spec_normalized_rate raw_count elapsed_seconds =
     py_int (real_of_int raw_count
             / real_of_int \<lceil>real_of_int (max 1 elapsed_seconds) / 60\<rceil>)"

definition current_rows :: "int \<Rightarrow> datetime \<Rightarrow> bucket list \<Rightarrow> bucket list" where
  "current_rows mn whn store =
     filter (\<lambda>r. date r > whn - timedelta_minutes mn \<and> times_seen r > 0) store"

definition check_alerts :: "int \<Rightarrow> datetime \<Rightarrow> bucket list \<Rightarrow> task list" where
  "check_alerts mn whn store =
     map (\<lambda>r. \<lparr>task_project_id = project_id r, task_when = whn,
               task_count = normalized_count whn (date r) (times_seen r),
               task_expires = 120\<rparr>)
         (current_rows mn whn store)"

section \<open>check_project_alerts\<close>

text \<open>
  \<open>options\<close> holds the \<open>project_alert_pct\<close> option of each project that has one,
  \<open>dflt\<close> is \<open>settings.DEFAULT_ALERT_PROJECT_THRESHOLD\<close>.
\<close>

type_synonym alert_pct = "int option \<times> int option"

definition get_alert_pct :: "(nat \<rightharpoonup> alert_pct) \<Rightarrow> alert_pct \<Rightarrow> nat \<Rightarrow> alert_pct" where
  "get_alert_pct options dflt pid =
     (case options pid of None \<Rightarrow> dflt | Some v \<Rightarrow> v)"

definition intervals :: int where
  "intervals = 8"

definition historical_data :: "int \<Rightarrow> bucket list \<Rightarrow> nat \<Rightarrow> datetime \<Rightarrow> int list" where
  "historical_data mn store pid whn =
     (let min_date = whn - timedelta_minutes mn;
          max_date = min_date - timedelta_minutes (intervals * mn)
      in map times_seen
           (filter (\<lambda>r. project_id r = pid \<and> date r < min_date \<and> date r \<ge> max_date)
              store))"

text \<open>Lines 126 and 127: the baseline \<open>previous\<close> of a history.\<close>

definition previous_rate :: "int \<Rightarrow> int list \<Rightarrow> error + real" where
  "previous_rate mn data =
     (case meanstdv data of
        Inl e \<Rightarrow> Inl e
      | Inr (mean, stddev) \<Rightarrow>
          if mn = 0 then Inl ZeroDivisionError
          else Inr (float_div (float_add mean (float_mul stddev 2)) (float_of_int mn)))"

text \<open>Lines 109 to 133: the comparison of the count with the history.\<close>

definition compare_with_history ::
  "int \<Rightarrow> bucket list \<Rightarrow> nat \<Rightarrow> datetime \<Rightarrow> int \<Rightarrow> int option \<Rightarrow> error + outcome" where
  "compare_with_history mn store pid whn count threshold =
     (let data = historical_data mn store pid whn
      in if int (length data) \<noteq> intervals then Inr NoAlert
         else
           case previous_rate mn data of
             Inl e \<Rightarrow> Inl e
           | Inr previous \<Rightarrow>
               if previous = 0 then Inl ZeroDivisionError
               else if real_gt_opt (float_mul (float_div (float_of_int count) previous) 100)
                         threshold
               then Inr (MaybeAlert pid (py_int previous) count)
               else Inr NoAlert)"

definition check_project_alerts ::
  "int \<Rightarrow> (nat \<rightharpoonup> alert_pct) \<Rightarrow> alert_pct \<Rightarrow> bucket list \<Rightarrow>
   nat \<Rightarrow> datetime \<Rightarrow> int \<Rightarrow> error + outcome" where
  "check_project_alerts mn options dflt store pid whn count =
     (let (threshold, min_events) = get_alert_pct options dflt pid
      in if \<not> truthy threshold \<and> truthy min_events then Inr NoAlert
         else if opt_gt_int min_events count then Inr NoAlert
         else compare_with_history mn store pid whn count threshold)"


text \<open>
  A history for examples: eight buckets of project 1 with the same count \<open>k\<close>, one
  every 15 minutes, the latest 30 minutes before \<open>whn\<close>.
\<close>

definition steady_store :: "datetime \<Rightarrow> int \<Rightarrow> bucket list" where
  "steady_store whn k =
     map (\<lambda>i. \<lparr>project_id = 1, date = whn - timedelta_minutes (15 * i), times_seen = k\<rparr>)
       [2, 3, 4, 5, 6, 7, 8, 9]"

section \<open>Auxiliary facts\<close>

subsection \<open>Rounding to the nearest double\<close>

lemma expo_lower: "x \<noteq> 0 \<Longrightarrow> 2 powr real_of_int (expo x) \<le> \<bar>x\<bar>"
proof -
  assume "x \<noteq> 0"
  then have pos: "0 < \<bar>x\<bar>" by simp
  have "real_of_int (expo x) \<le> log 2 \<bar>x\<bar>" by (simp add: expo_def)
  then have "2 powr real_of_int (expo x) \<le> 2 powr log 2 \<bar>x\<bar>" by (simp only: powr_le_cancel_iff) 
  then show ?thesis using pos by simp
qed

lemma expo_upper: "x \<noteq> 0 \<Longrightarrow> \<bar>x\<bar> < 2 powr (real_of_int (expo x) + 1)"
proof -
  assume "x \<noteq> 0"
  then have pos: "0 < \<bar>x\<bar>" by simp
  have "log 2 \<bar>x\<bar> < real_of_int (expo x) + 1" by (simp add: expo_def)
  then have "2 powr log 2 \<bar>x\<bar> < 2 powr (real_of_int (expo x) + 1)" by (simp only: powr_less_cancel_iff)
  then show ?thesis using pos by simp
qed

lemma expo_unique:
  assumes "2 powr real_of_int e \<le> \<bar>x\<bar>" "\<bar>x\<bar> < 2 powr (real_of_int e + 1)"
  shows "expo x = e"
proof -
  have "0 < (2::real) powr real_of_int e" by simp
  then have pos: "0 < \<bar>x\<bar>" using assms(1) by linarith
  have a: "real_of_int e \<le> log 2 \<bar>x\<bar>"
    using assms(1) pos by (simp add: le_log_iff)
  have b: "log 2 \<bar>x\<bar> < real_of_int e + 1"
    using assms(2) pos by (simp add: log_less_iff)
  show ?thesis unfolding expo_def using a b by linarith
qed

lemma ulp_pos: "0 < ulp x"
  by (simp add: ulp_def)

lemma round_even_error: "\<bar>real_of_int (round_even y) - y\<bar> \<le> 1 / 2"
  unfolding round_even_def Let_def by (auto; linarith)

lemma round_even_of_int: "round_even (real_of_int k) = k"
  by (simp add: round_even_def)

lemma round_even_mono: "y \<le> z \<Longrightarrow> round_even y \<le> round_even z"
proof -
  assume yz: "y \<le> z"
  have fl: "\<lfloor>y\<rfloor> \<le> \<lfloor>z\<rfloor>" using yz by (rule floor_mono)
  show ?thesis
  proof (cases "\<lfloor>y\<rfloor> = \<lfloor>z\<rfloor>")
    case True
    then show ?thesis using yz unfolding round_even_def Let_def by auto
  next
    case False
    then have "\<lfloor>y\<rfloor> + 1 \<le> \<lfloor>z\<rfloor>" using fl by linarith
    moreover have "round_even y \<le> \<lfloor>y\<rfloor> + 1" unfolding round_even_def Let_def by auto
    moreover have "\<lfloor>z\<rfloor> \<le> round_even z" unfolding round_even_def Let_def by auto
    ultimately show ?thesis by linarith
  qed
qed

lemma powr_shift: "2 powr (r - real n) * 2 ^ n = (2::real) powr r"
proof -
  have "(2::real) ^ n = 2 powr real n" by (simp add: powr_realpow)
  then have "2 powr (r - real n) * 2 ^ n = 2 powr (r - real n) * 2 powr real n" by simp
  also have "\<dots> = 2 powr r" by (simp only: powr_add [symmetric]) simp
  finally show ?thesis .
qed

lemma rnd_zero: "rnd 0 = 0"
  by (simp add: rnd_def)

lemma ulp_times: "x \<noteq> 0 \<Longrightarrow> ulp x * 2 ^ 52 \<le> \<bar>x\<bar> \<and> \<bar>x\<bar> < ulp x * 2 ^ 53"
proof -
  assume x: "x \<noteq> 0"
  have a: "ulp x * 2 ^ 52 = 2 powr real_of_int (expo x)"
    unfolding ulp_def using powr_shift [of "real_of_int (expo x)" 52] by simp
  have b: "ulp x * 2 ^ 53 = 2 powr (real_of_int (expo x) + 1)"
    unfolding ulp_def using powr_shift [of "real_of_int (expo x) + 1" 53] by simp
  show ?thesis unfolding a b using expo_lower [OF x] expo_upper [OF x] by simp
qed

lemma rnd_error: "\<bar>rnd x - x\<bar> \<le> ulp x / 2"
proof (cases "x = 0")
  case True
  then show ?thesis using ulp_pos [of x] by (simp add: rnd_def)
next
  case False
  have "\<bar>rnd x - x\<bar> = \<bar>real_of_int (round_even (x / ulp x)) - x / ulp x\<bar> * ulp x"
  proof -
    have "rnd x - x = (real_of_int (round_even (x / ulp x)) - x / ulp x) * ulp x"
      using False ulp_pos [of x] by (simp add: rnd_def field_simps)
    then show ?thesis using ulp_pos [of x] by (simp add: abs_mult)
  qed
  also have "\<dots> \<le> 1 / 2 * ulp x"
    using round_even_error [of "x / ulp x"] ulp_pos [of x]
    by (intro mult_right_mono) simp_all
  finally show ?thesis by simp
qed

lemma rnd_rel_error: "\<bar>rnd x - x\<bar> * 2 ^ 53 \<le> \<bar>x\<bar>"
proof (cases "x = 0")
  case True
  then show ?thesis by (simp add: rnd_def)
next
  case False
  have "\<bar>rnd x - x\<bar> * 2 ^ 53 \<le> ulp x / 2 * 2 ^ 53"
    using rnd_error [of x] by (intro mult_right_mono) simp_all
  also have "\<dots> = ulp x * 2 ^ 52" by simp
  also have "\<dots> \<le> \<bar>x\<bar>" using ulp_times [OF False] by simp
  finally show ?thesis .
qed

lemma rnd_lower: assumes "0 < x" shows "ulp x * 2 ^ 52 \<le> rnd x"
proof -
  have x: "x \<noteq> 0" using assms by simp
  have "2 ^ 52 \<le> x / ulp x"
    using ulp_times [OF x] assms ulp_pos [of x] by (simp add: field_simps)
  then have "round_even (real_of_int (2 ^ 52)) \<le> round_even (x / ulp x)"
    by (intro round_even_mono) simp
  then have "(2 ^ 52 :: int) \<le> round_even (x / ulp x)"
    by (simp only: round_even_of_int)
  then have "real_of_int (2 ^ 52) \<le> real_of_int (round_even (x / ulp x))"
    by (simp only: of_int_le_iff)
  then have "real_of_int (2 ^ 52) * ulp x \<le> real_of_int (round_even (x / ulp x)) * ulp x"
    using ulp_pos [of x] by (intro mult_right_mono) simp_all
  then show ?thesis using x by (simp add: rnd_def mult.commute)
qed

lemma rnd_upper: assumes "0 < x" shows "rnd x \<le> ulp x * 2 ^ 53"
proof -
  have x: "x \<noteq> 0" using assms by simp
  have "x / ulp x \<le> 2 ^ 53"
    using ulp_times [OF x] assms ulp_pos [of x] by (simp add: field_simps)
  then have "round_even (x / ulp x) \<le> round_even (real_of_int (2 ^ 53))"
    by (intro round_even_mono) simp
  then have "round_even (x / ulp x) \<le> (2 ^ 53 :: int)"
    by (simp only: round_even_of_int)
  then have "real_of_int (round_even (x / ulp x)) \<le> real_of_int (2 ^ 53)"
    by (simp only: of_int_le_iff)
  then have "real_of_int (round_even (x / ulp x)) * ulp x \<le> real_of_int (2 ^ 53) * ulp x"
    using ulp_pos [of x] by (intro mult_right_mono) simp_all
  then show ?thesis using x by (simp add: rnd_def mult.commute)
qed

lemma rnd_pos: "0 < x \<Longrightarrow> 0 < rnd x"
proof -
  assume x: "0 < x"
  have "0 < ulp x * 2 ^ 52" using ulp_pos [of x] by simp
  then show ?thesis using rnd_lower [OF x] by linarith
qed

lemma rnd_nonneg: "0 \<le> x \<Longrightarrow> 0 \<le> rnd x"
  using rnd_pos [of x] rnd_zero by (cases "x = 0") (simp_all add: less_eq_real_def)

lemma expo_mono: assumes "0 < x" "x \<le> y" shows "expo x \<le> expo y"
proof -
  have "log 2 \<bar>x\<bar> \<le> log 2 \<bar>y\<bar>" using assms by simp
  then show ?thesis unfolding expo_def by (rule floor_mono)
qed

lemma rnd_mono_pos: assumes x: "0 < x" and xy: "x \<le> y" shows "rnd x \<le> rnd y"
proof (cases "expo x = expo y")
  case True
  then have u: "ulp x = ulp y" by (simp add: ulp_def)
  have "x / ulp y \<le> y / ulp y" using xy ulp_pos [of y] by (simp add: divide_right_mono)
  then have "round_even (x / ulp y) \<le> round_even (y / ulp y)" by (rule round_even_mono)
  then have "real_of_int (round_even (x / ulp y)) * ulp y \<le> real_of_int (round_even (y / ulp y)) * ulp y"
    using ulp_pos [of y] by (intro mult_right_mono) simp_all
  then show ?thesis using x xy u by (simp add: rnd_def)
next
  case False
  have y: "0 < y" using x xy by linarith
  have "expo x + 1 \<le> expo y" using False expo_mono [OF x xy] by linarith
  then have "real_of_int (expo x) - 52 + 53 \<le> real_of_int (expo y) - 52 + 52" by simp
  then have "2 powr (real_of_int (expo x) - 52 + 53) \<le> 2 powr (real_of_int (expo y) - 52 + 52)"
    by (simp only: powr_le_cancel_iff)
  then have "ulp x * 2 ^ 53 \<le> ulp y * 2 ^ 52"
    unfolding ulp_def
    using powr_shift [of "real_of_int (expo x) - 52 + 53" 53]
      powr_shift [of "real_of_int (expo y) - 52 + 52" 52] by simp
  then show ?thesis using rnd_upper [OF x] rnd_lower [OF y] by linarith
qed

lemma rnd_mono_nonneg: assumes "0 \<le> x" "x \<le> y" shows "rnd x \<le> rnd y"
proof (cases "x = 0")
  case True
  then show ?thesis using rnd_nonneg [of y] assms by (simp add: rnd_zero)
next
  case False
  then show ?thesis using assms by (intro rnd_mono_pos) simp_all
qed

lemma powr_neg_nat: "(2::real) powr (- real n) = 1 / 2 ^ n"
  by (simp add: powr_minus powr_realpow inverse_eq_divide)

lemma rnd_eval:
  assumes lo: "2 ^ 52 \<le> \<bar>x\<bar> * 2 ^ k" and hi: "\<bar>x\<bar> * 2 ^ k < 2 ^ 53"
  shows "rnd x = real_of_int (round_even (x * 2 ^ k)) / 2 ^ k"
proof -
  have x: "x \<noteq> 0" using lo by auto
  have p: "2 powr (real_of_int (52 - int k)) * 2 ^ k = 2 ^ 52"
    using powr_shift [of 52 k] by simp
  have q: "2 powr (real_of_int (52 - int k) + 1) * 2 ^ k = 2 ^ 53"
    using powr_shift [of 53 k] by (simp add: algebra_simps)
  have "2 powr (real_of_int (52 - int k)) * 2 ^ k \<le> \<bar>x\<bar> * 2 ^ k"
    unfolding p using lo .
  then have a: "2 powr (real_of_int (52 - int k)) \<le> \<bar>x\<bar>" by simp
  have "\<bar>x\<bar> * 2 ^ k < 2 powr (real_of_int (52 - int k) + 1) * 2 ^ k"
    unfolding q using hi .
  then have b: "\<bar>x\<bar> < 2 powr (real_of_int (52 - int k) + 1)" by simp
  have e: "expo x = 52 - int k" using a b by (rule expo_unique)
  have u: "ulp x = 1 / 2 ^ k"
    unfolding ulp_def e using powr_neg_nat [of k] by simp
  show ?thesis using x by (simp add: rnd_def u)
qed

lemma rnd_of_int:
  assumes "\<bar>k\<bar> \<le> 2 ^ 53"
  shows "rnd (real_of_int k) = real_of_int k"
proof (cases "k = 0")
  case True
  then show ?thesis by (simp add: rnd_zero)
next
  case False
  let ?x = "real_of_int k"
  have x: "?x \<noteq> 0" using False by simp
  show ?thesis
  proof (cases "expo ?x \<le> 52")
    case True
    define n where "n = nat (52 - expo ?x)"
    have "real_of_int (expo ?x) - 52 = - real n" using True by (simp add: n_def)
    then have u: "ulp ?x = 1 / 2 ^ n"
      unfolding ulp_def using powr_neg_nat [of n] by simp
    have "?x / ulp ?x = real_of_int (k * 2 ^ n)" by (simp add: u)
    then have "round_even (?x / ulp ?x) = k * 2 ^ n" by (simp only: round_even_of_int)
    then show ?thesis using x by (simp add: rnd_def u)
  next
    case False
    then have "53 \<le> expo ?x" by simp
    then have "(53::real) \<le> real_of_int (expo ?x)" by linarith
    then have "(2::real) powr 53 \<le> 2 powr real_of_int (expo ?x)"
      by (simp only: powr_le_cancel_iff) 
    moreover have "(2::real) powr 53 = 2 ^ 53"
      using powr_realpow [of "2::real" 53] by simp
    ultimately have "(2::real) ^ 53 \<le> \<bar>?x\<bar>" using expo_lower [OF x] by linarith
    moreover have "\<bar>?x\<bar> \<le> 2 ^ 53"
    proof -
      have "real_of_int \<bar>k\<bar> \<le> real_of_int (2 ^ 53)"
        using assms by (simp only: of_int_le_iff)
      then show ?thesis by simp
    qed
    ultimately have ax: "\<bar>?x\<bar> = 2 ^ 53" by linarith
    have "rnd ?x = real_of_int (round_even (?x / 2 ^ 1)) * 2 ^ 1"
    proof -
      have a: "2 powr real_of_int 53 \<le> \<bar>?x\<bar>"
        using ax powr_realpow [of "2::real" 53] by simp
      have b: "\<bar>?x\<bar> < 2 powr (real_of_int 53 + 1)"
        using ax powr_realpow [of "2::real" 54] by simp
      have e: "expo ?x = 53" using a b by (rule expo_unique)
      have u: "ulp ?x = 2" unfolding ulp_def e by simp
      show ?thesis using x by (simp add: rnd_def u)
    qed
    moreover have "even k"
    proof -
      have "real_of_int \<bar>k\<bar> = real_of_int (2 ^ 53)" using ax by simp
      then have "\<bar>k\<bar> = 2 ^ 53" by (simp only: of_int_eq_iff)
      then have "k = 2 ^ 53 \<or> k = - (2 ^ 53)" by linarith
      then show ?thesis by auto
    qed
    then obtain j where j: "k = 2 * j" by (auto elim: evenE)
    ultimately show ?thesis by (simp add: round_even_of_int)
  qed
qed

subsection \<open>The rounded quotient of line 80\<close>

lemma rnd_between:
  assumes "0 \<le> x"
  shows "x * (9007199254740991 / 9007199254740992) \<le> rnd x"
    and "rnd x \<le> x * (9007199254740993 / 9007199254740992)"
proof -
  have "\<bar>rnd x - x\<bar> * 2 ^ 53 \<le> \<bar>x\<bar>" by (rule rnd_rel_error)
  then have e: "\<bar>rnd x - x\<bar> * 9007199254740992 \<le> x" using assms by simp
  show "x * (9007199254740991 / 9007199254740992) \<le> rnd x" using e by (simp add: abs_if split: if_splits)
  show "rnd x \<le> x * (9007199254740993 / 9007199254740992)" using e by (simp add: abs_if split: if_splits)
qed

lemma quotient_window:
  assumes a: "0 < a" and c0: "0 \<le> c" and c1: "c \<le> 2 ^ 45"
  shows "(real_of_int (60 * c) - 1) / real_of_int a
           < float_div (float_of_int c) (int_true_div a 60)"
    and "float_div (float_of_int c) (int_true_div a 60)
           < (real_of_int (60 * c) + 1) / real_of_int a"
proof -
  define x0 where "x0 = real_of_int a / 60"
  define x where "x = rnd x0"
  define z where "z = real_of_int c / x"
  define y where "y = rnd z"
  define n where "n = real_of_int (60 * c)"
  have ra: "0 < real_of_int a" using a by simp
  have x0: "0 < x0" using a by (simp add: x0_def)
  have xlo: "x0 * (9007199254740991 / 9007199254740992) \<le> x"
    and xhi: "x \<le> x0 * (9007199254740993 / 9007199254740992)"
    unfolding x_def using x0 by (simp_all only: rnd_between less_imp_le)
  have "0 < x0 * (9007199254740991 / 9007199254740992)" using x0 by simp
  then have xpos: "0 < x" using xlo by linarith
  have "\<bar>c\<bar> \<le> 2 ^ 53" using c0 c1 by simp
  then have fc: "float_of_int c = real_of_int c"
    unfolding float_of_int_def by (rule rnd_of_int)
  have y: "float_div (float_of_int c) (int_true_div a 60) = y"
    by (simp add: float_div_def int_true_div_def fc y_def z_def x_def x0_def)
  have rc: "0 \<le> real_of_int c" using c0 by simp
  have z0: "0 \<le> z" unfolding z_def using rc xpos by simp
  have zhi: "z \<le> real_of_int c / (x0 * (9007199254740991 / 9007199254740992))"
    unfolding z_def using xlo x0 rc by (intro divide_left_mono) (simp_all add: xpos)
  have zlo: "real_of_int c / (x0 * (9007199254740993 / 9007199254740992)) \<le> z"
    unfolding z_def using xhi x0 rc xpos by (intro divide_left_mono) simp_all
  have ylo: "z * (9007199254740991 / 9007199254740992) \<le> y"
    and yhi: "y \<le> z * (9007199254740993 / 9007199254740992)"
    unfolding y_def using z0 by (simp_all only: rnd_between)
  have nb: "0 \<le> n" "n \<le> 2 ^ 51"
  proof -
    show "0 \<le> n" using c0 by (simp add: n_def)
    have "60 * c \<le> 2 ^ 51" using c1 by simp
    then have "real_of_int (60 * c) \<le> real_of_int (2 ^ 51)" by (simp only: of_int_le_iff)
    then show "n \<le> 2 ^ 51" by (simp add: n_def)
  qed
  have e1: "real_of_int c / (x0 * (9007199254740991 / 9007199254740992))
              * (9007199254740993 / 9007199254740992)
            = n * (9007199254740993 / 9007199254740991) / real_of_int a"
    using ra by (simp add: x0_def n_def field_simps)
  have e2: "real_of_int c / (x0 * (9007199254740993 / 9007199254740992))
              * (9007199254740991 / 9007199254740992)
            = n * (9007199254740991 / 9007199254740993) / real_of_int a"
    using ra by (simp add: x0_def n_def field_simps)
  have "y \<le> n * (9007199254740993 / 9007199254740991) / real_of_int a"
  proof -
    have "y \<le> real_of_int c / (x0 * (9007199254740991 / 9007199254740992))
              * (9007199254740993 / 9007199254740992)"
    proof -
      have "z * (9007199254740993 / 9007199254740992)
          \<le> real_of_int c / (x0 * (9007199254740991 / 9007199254740992))
              * (9007199254740993 / 9007199254740992)"
        using zhi by (intro mult_right_mono) simp_all
      then show ?thesis using yhi by linarith
    qed
    then show ?thesis by (simp only: e1)
  qed
  moreover have "n * (9007199254740993 / 9007199254740991) / real_of_int a < (n + 1) / real_of_int a"
    using nb ra by (intro divide_strict_right_mono) simp_all
  ultimately have hi: "y < (n + 1) / real_of_int a" by linarith
  have "n * (9007199254740991 / 9007199254740993) / real_of_int a \<le> y"
  proof -
    have "real_of_int c / (x0 * (9007199254740993 / 9007199254740992))
              * (9007199254740991 / 9007199254740992) \<le> y"
    proof -
      have "real_of_int c / (x0 * (9007199254740993 / 9007199254740992))
              * (9007199254740991 / 9007199254740992)
          \<le> z * (9007199254740991 / 9007199254740992)"
        using zlo by (intro mult_right_mono) simp_all
      then show ?thesis using ylo by linarith
    qed
    then show ?thesis by (simp only: e2)
  qed
  moreover have "(n - 1) / real_of_int a < n * (9007199254740991 / 9007199254740993) / real_of_int a"
    using nb ra by (intro divide_strict_right_mono) simp_all
  ultimately have lo: "(n - 1) / real_of_int a < y" by linarith
  show "(real_of_int (60 * c) - 1) / real_of_int a
           < float_div (float_of_int c) (int_true_div a 60)"
    using lo by (simp only: y n_def)
  show "float_div (float_of_int c) (int_true_div a 60)
           < (real_of_int (60 * c) + 1) / real_of_int a"
    using hi by (simp only: y n_def)
qed

subsection \<open>The seconds field and the normalized count\<close>

lemma seconds_nonneg: "0 \<le> seconds d"
  by (simp add: seconds_def)

lemma seconds_mono:
  assumes "0 \<le> d1" "d1 \<le> d2" "d2 < 86400000000"
  shows "seconds d1 \<le> seconds d2"
proof -
  have a: "d1 div 1000000 \<le> d2 div 1000000"
    using assms by (simp add: zdiv_mono1)
  have b: "0 \<le> d1 div 1000000" using assms by simp
  have c: "d2 div 1000000 < 86400" using assms by simp
  show ?thesis unfolding seconds_def using a b c by simp
qed

lemma int_true_div_pos: "0 < a \<Longrightarrow> 0 < int_true_div a 60"
  unfolding int_true_div_def by (rule rnd_pos) simp

lemma float_of_int_nonneg: "0 \<le> c \<Longrightarrow> 0 \<le> float_of_int c"
  unfolding float_of_int_def by (rule rnd_nonneg) simp

lemma float_quotient_nonneg:
  "0 \<le> c \<Longrightarrow> 0 < a \<Longrightarrow> 0 \<le> float_div (float_of_int c) (int_true_div a 60)"
  unfolding float_div_def
  using float_of_int_nonneg [of c] int_true_div_pos [of a]
  by (intro rnd_nonneg) simp

lemma normalized_count_floor:
  "0 \<le> c \<Longrightarrow>
   normalized_count whn d c =
     \<lfloor>float_div (float_of_int c) (int_true_div (seconds (whn - d) + 1) 60)\<rfloor>"
  unfolding normalized_count_def py_int_def
  using float_quotient_nonneg [of c "seconds (whn - d) + 1"] seconds_nonneg [of "whn - d"]
  by simp

lemma floor_window:
  fixes y :: real and n a :: int
  assumes a: "0 < a"
    and lo: "(real_of_int n - 1) / real_of_int a < y"
    and hi: "y < (real_of_int n + 1) / real_of_int a"
  shows "(n mod a \<noteq> 0 \<longrightarrow> \<lfloor>y\<rfloor> = n div a) \<and>
         (\<lfloor>y\<rfloor> = n div a \<or> (n mod a = 0 \<and> \<lfloor>y\<rfloor> = n div a - 1))"
proof -
  define q where "q = n div a"
  define r where "r = n mod a"
  have n: "n = a * q + r" by (simp add: q_def r_def)
  have r: "0 \<le> r" "r < a" using a by (simp_all add: r_def)
  have ra: "0 < real_of_int a" using a by simp
  have lo': "real_of_int (a * q + r) - 1 < y * real_of_int a"
    using lo ra unfolding n by (simp add: field_simps)
  have hi': "y * real_of_int a < real_of_int (a * q + r) + 1"
    using hi ra unfolding n by (simp add: field_simps)
  have upper: "y < real_of_int q + 1"
  proof -
    have "a * q + r + 1 \<le> a * q + a" using r by simp
    then have "real_of_int (a * q + r + 1) \<le> real_of_int (a * q + a)"
      by (simp only: of_int_le_iff)
    then have "real_of_int (a * q + r) + 1 \<le> real_of_int (a * q + a)" by simp
    then have "y * real_of_int a < (real_of_int q + 1) * real_of_int a"
      using hi' by (simp add: algebra_simps)
    then show ?thesis using ra by simp
  qed
  have lower: "real_of_int q - 1 < y"
  proof -
    have "a * q - a \<le> a * q + r - 1" using r a by simp
    then have "real_of_int (a * q - a) \<le> real_of_int (a * q + r - 1)"
      by (simp only: of_int_le_iff)
    then have "real_of_int (a * q - a) \<le> real_of_int (a * q + r) - 1" by simp
    then have "(real_of_int q - 1) * real_of_int a < y * real_of_int a"
      using lo' by (simp add: algebra_simps)
    then show ?thesis using ra by simp
  qed
  have exact: "real_of_int q \<le> y" if "r \<noteq> 0"
  proof -
    have "1 \<le> r" using that r by simp
    then have "a * q \<le> a * q + r - 1" by simp
    then have "real_of_int (a * q) \<le> real_of_int (a * q + r - 1)"
      by (simp only: of_int_le_iff)
    then have "real_of_int (a * q) \<le> real_of_int (a * q + r) - 1" by simp
    then have "real_of_int q * real_of_int a < y * real_of_int a"
      using lo' by (simp add: algebra_simps)
    then show ?thesis using ra by simp
  qed
  have f1: "\<lfloor>y\<rfloor> \<le> q" using upper by linarith
  have f2: "q - 1 \<le> \<lfloor>y\<rfloor>" using lower by linarith
  have f3: "\<lfloor>y\<rfloor> = q" if "r \<noteq> 0" using exact [OF that] upper by linarith
  show ?thesis using f1 f2 f3 unfolding q_def r_def by auto
qed

lemma normalized_count_window:
  assumes c0: "0 \<le> c" and c1: "c \<le> 2 ^ 45"
  shows "((60 * c) mod (seconds (whn - d) + 1) \<noteq> 0 \<longrightarrow>
            normalized_count whn d c = (60 * c) div (seconds (whn - d) + 1)) \<and>
         (normalized_count whn d c = (60 * c) div (seconds (whn - d) + 1) \<or>
          ((60 * c) mod (seconds (whn - d) + 1) = 0 \<and>
           normalized_count whn d c = (60 * c) div (seconds (whn - d) + 1) - 1))"
proof -
  have a: "0 < seconds (whn - d) + 1" using seconds_nonneg [of "whn - d"] by linarith
  show ?thesis
    unfolding normalized_count_floor [OF c0]
    by (rule floor_window [OF a quotient_window [OF a c0 c1]])
qed

lemma normalized_count_exact:
  assumes "0 \<le> c" "c \<le> 2 ^ 45" "(60 * c) mod (seconds (whn - d) + 1) \<noteq> 0"
  shows "normalized_count whn d c = (60 * c) div (seconds (whn - d) + 1)"
  using normalized_count_window [OF assms(1,2), of whn d] assms(3) by blast

lemma normalized_count_mono:
  assumes c: "0 \<le> c" and s: "seconds (whn - d1) \<le> seconds (whn - d2)"
  shows "normalized_count whn d2 c \<le> normalized_count whn d1 c"
proof -
  let ?a1 = "seconds (whn - d1) + 1" and ?a2 = "seconds (whn - d2) + 1"
  have a1: "0 < ?a1" using seconds_nonneg [of "whn - d1"] by linarith
  have a2: "0 < ?a2" using seconds_nonneg [of "whn - d2"] by linarith
  have x: "int_true_div ?a1 60 \<le> int_true_div ?a2 60"
    unfolding int_true_div_def using a1 s by (intro rnd_mono_nonneg) simp_all
  have x1: "0 < int_true_div ?a1 60" using a1 by (rule int_true_div_pos)
  have x2: "0 < int_true_div ?a2 60" using a2 by (rule int_true_div_pos)
  have fc: "0 \<le> float_of_int c" using c by (rule float_of_int_nonneg)
  have "float_of_int c / int_true_div ?a2 60 \<le> float_of_int c / int_true_div ?a1 60"
    using x x1 x2 fc by (intro divide_left_mono) simp_all
  moreover have "0 \<le> float_of_int c / int_true_div ?a2 60" using fc x2 by simp
  ultimately have "float_div (float_of_int c) (int_true_div ?a2 60)
      \<le> float_div (float_of_int c) (int_true_div ?a1 60)"
    unfolding float_div_def by (intro rnd_mono_nonneg)
  then show ?thesis
    unfolding normalized_count_floor [OF c] by (rule floor_mono)
qed

subsection \<open>Exact values\<close>

lemma rnd_numeral: "(numeral n :: int) \<le> 2 ^ 53 \<Longrightarrow> rnd (numeral n) = numeral n"
  using rnd_of_int [of "numeral n"] by simp

lemma rnd_one: "rnd 1 = 1"
  using rnd_of_int [of 1] by simp

lemma rnd_eq_zero_iff: "rnd x = 0 \<longleftrightarrow> x = 0"
proof
  assume "rnd x = 0"
  then have "\<bar>x\<bar> * 2 ^ 53 \<le> \<bar>x\<bar>" using rnd_rel_error [of x] by simp
  then show "x = 0" by simp
qed (simp add: rnd_zero)

lemma float_of_int_exact: "\<bar>k\<bar> \<le> 2 ^ 53 \<Longrightarrow> float_of_int k = real_of_int k"
  unfolding float_of_int_def by (rule rnd_of_int)

subsection \<open>The steady history\<close>

lemma hist_steady: "historical_data 15 (steady_store whn k) 1 whn = [k, k, k, k, k, k, k, k]"
  by (simp add: historical_data_def steady_store_def timedelta_minutes_def intervals_def Let_def)

lemma meanstdv_const8:
  assumes "\<bar>k\<bar> \<le> 2 ^ 50"
  shows "meanstdv [k, k, k, k, k, k, k, k] = Inr (real_of_int k, 0)"
proof -
  have k: "float_of_int k = real_of_int k"
    using assms by (intro float_of_int_exact) simp
  have total: "fold (\<lambda>a mean. mean + a) [k, k, k, k, k, k, k, k] 0 = 8 * k"
    by simp
  have t: "float_of_int (8 * k) = real_of_int k * 8"
  proof -
    have "\<bar>8 * k\<bar> \<le> 2 ^ 53" using assms by simp
    then show ?thesis by (simp add: float_of_int_exact)
  qed
  have e: "float_of_int 8 = 8" "float_of_int 7 = 7"
    by (simp_all add: float_of_int_def rnd_numeral)
  have mean: "float_div (float_of_int (8 * k)) (float_of_int 8) = real_of_int k"
    unfolding t e float_div_def using k by (simp add: float_of_int_def)
  have dev: "float_add 0 (float_sqr (float_sub (float_of_int k) (real_of_int k))) = 0"
    by (simp add: k float_sub_def float_sqr_def float_add_def rnd_zero)
  have std: "fold (\<lambda>a std. float_add std (float_sqr (float_sub (float_of_int a) (real_of_int k))))
      [k, k, k, k, k, k, k, k] 0 = 0"
    by (simp add: dev)
  have len: "int (length [k, k, k, k, k, k, k, k]) = 8" by simp
  show ?thesis
    unfolding meanstdv_def Let_def len total mean std
    by (simp add: e rnd_zero float_div_def float_sqrt_def)
qed

lemma prev_const8:
  assumes "\<bar>k\<bar> \<le> 2 ^ 50"
  shows "previous_rate 15 [k, k, k, k, k, k, k, k] = Inr (rnd (real_of_int k / 15))"
proof -
  have k: "rnd (real_of_int k) = real_of_int k"
    using assms by (intro rnd_of_int) simp
  show ?thesis
    unfolding previous_rate_def meanstdv_const8 [OF assms]
    by (simp add: float_div_def float_add_def float_mul_def float_of_int_def
        rnd_zero rnd_numeral k)
qed

lemma cmp_steady:
  assumes "\<bar>k\<bar> \<le> 2 ^ 50"
  shows "compare_with_history 15 (steady_store whn k) 1 whn c threshold =
     (if k = 0 then Inl ZeroDivisionError
      else if real_gt_opt
                (float_mul (float_div (float_of_int c) (rnd (real_of_int k / 15))) 100) threshold
      then Inr (MaybeAlert 1 (py_int (rnd (real_of_int k / 15))) c) else Inr NoAlert)"
  unfolding compare_with_history_def Let_def hist_steady prev_const8 [OF assms]
  by (simp add: intervals_def rnd_eq_zero_iff)

subsection \<open>The loops of meanstdv\<close>





lemma cmp_steady_15:
  "compare_with_history 15 (steady_store whn 15) 1 whn c threshold =
     (if real_gt_opt (float_mul (float_div (float_of_int c) 1) 100) threshold
      then Inr (MaybeAlert 1 1 c) else Inr NoAlert)"
proof -
  have "\<bar>15::int\<bar> \<le> 2 ^ 50" by simp
  from cmp_steady [OF this, of whn c threshold] show ?thesis
    by (simp add: rnd_one py_int_def)
qed

lemma cmp_steady_0:
  "compare_with_history 15 (steady_store whn 0) 1 whn c threshold = Inl ZeroDivisionError"
proof -
  have "\<bar>0::int\<bar> \<le> 2 ^ 50" by simp
  from cmp_steady [OF this, of whn c threshold] show ?thesis by simp
qed

lemma map_all_zero:
  "\<forall>r \<in> set rows. f r = (0::int) \<Longrightarrow> map f rows = replicate (length rows) 0"
  by (induction rows) simp_all

lemma replicate_eight: "replicate 8 x = [x, x, x, x, x, x, x, x]"
  by (simp add: numeral_eq_Suc)

lemma steady_rows:
  "filter (\<lambda>r. project_id r = 1 \<and> date r < 0 - timedelta_minutes 15 \<and>
                 date r \<ge> 0 - timedelta_minutes 15 - timedelta_minutes (8 * 15)) (steady_store 0 k)
   = steady_store 0 k"
  by (simp add: steady_store_def timedelta_minutes_def)

subsection \<open>Rounding a fraction\<close>

lemma round_even_frac:
  assumes "0 < b"
  shows "round_even (real_of_int a / real_of_int b) =
     (if 2 * (a mod b) < b then a div b
      else if 2 * (a mod b) > b then a div b + 1
      else if even (a div b) then a div b else a div b + 1)"
proof -
  have b: "0 < real_of_int b" using assms by simp
  have fl: "\<lfloor>real_of_int a / real_of_int b\<rfloor> = a div b"
    by (rule floor_divide_of_int_eq)
  have "real_of_int a = real_of_int (b * (a div b) + a mod b)" by simp
  then have "real_of_int a = real_of_int b * real_of_int (a div b) + real_of_int (a mod b)"
    by (simp only: of_int_add of_int_mult)
  then have fr: "real_of_int a / real_of_int b - real_of_int (a div b) = real_of_int (a mod b) / real_of_int b"
    using b by (simp add: field_simps)
  have lt: "(real_of_int (a mod b) / real_of_int b < 1 / 2) = (2 * (a mod b) < b)"
  proof -
    have "(real_of_int (a mod b) / real_of_int b < 1 / 2) = (real_of_int (2 * (a mod b)) < real_of_int b)"
      using b by (simp add: field_simps)
    then show ?thesis by (simp only: of_int_less_iff)
  qed
  have gt: "(real_of_int (a mod b) / real_of_int b > 1 / 2) = (2 * (a mod b) > b)"
  proof -
    have "(real_of_int (a mod b) / real_of_int b > 1 / 2) = (real_of_int (2 * (a mod b)) > real_of_int b)"
      using b by (simp add: field_simps)
    then show ?thesis by (simp only: of_int_less_iff)
  qed
  show ?thesis
    unfolding round_even_def fl Let_def fr lt gt ..
qed

lemma rnd_frac:
  assumes b: "0 < b" and lo: "2 ^ 52 * b \<le> a * 2 ^ k" and hi: "a * 2 ^ k < 2 ^ 53 * b"
  shows "rnd (real_of_int a / real_of_int b) =
     real_of_int
       (if 2 * ((a * 2 ^ k) mod b) < b then (a * 2 ^ k) div b
        else if 2 * ((a * 2 ^ k) mod b) > b then (a * 2 ^ k) div b + 1
        else if even ((a * 2 ^ k) div b) then (a * 2 ^ k) div b else (a * 2 ^ k) div b + 1)
     / 2 ^ k"
proof -
  have rb: "0 < real_of_int b" using b by simp
  have "0 < 2 ^ 52 * b" using b by simp
  then have "0 < a * 2 ^ k" using lo by linarith
  then have a: "0 < a" by (simp add: zero_less_mult_iff)
  have "real_of_int (2 ^ 52 * b) \<le> real_of_int (a * 2 ^ k)"
    using lo by (simp only: of_int_le_iff)
  then have l: "2 ^ 52 \<le> \<bar>real_of_int a / real_of_int b\<bar> * 2 ^ k"
    using rb a by (simp add: field_simps)
  have "real_of_int (a * 2 ^ k) < real_of_int (2 ^ 53 * b)"
    using hi by (simp only: of_int_less_iff)
  then have h: "\<bar>real_of_int a / real_of_int b\<bar> * 2 ^ k < 2 ^ 53"
    using rb a by (simp add: field_simps)
  have "rnd (real_of_int a / real_of_int b)
      = real_of_int (round_even (real_of_int a / real_of_int b * 2 ^ k)) / 2 ^ k"
    using l h by (rule rnd_eval)
  also have "real_of_int a / real_of_int b * 2 ^ k = real_of_int (a * 2 ^ k) / real_of_int b"
    by simp
  finally show ?thesis by (simp only: round_even_frac [OF b])
qed

lemma rnd_31_60: "rnd (31 / 60) = 4653719614949513 / 9007199254740992"
  using rnd_frac [of 60 31 53] by simp

lemma rnd_31_over:
  "rnd (279223176896970752 / 4653719614949513) = 8444249301319679 / 140737488355328"
  using rnd_frac [of 4653719614949513 279223176896970752 47] by simp

lemma normalized_31_30: "normalized_count 30000000 0 31 = 59"
proof -
  have s: "seconds (30000000 - 0) + 1 = 31" by (simp add: seconds_def)
  have v: "float_div (float_of_int 31) (int_true_div 31 60) = 8444249301319679 / 140737488355328"
    by (simp add: float_div_def float_of_int_def int_true_div_def rnd_numeral rnd_31_60 rnd_31_over)
  show ?thesis
    unfolding normalized_count_def s v by (simp add: py_int_def)
qed

subsection \<open>The mean and the deviation\<close>

















subsection \<open>A ratio that rounds above the threshold\<close>






section \<open>The guards of check_project_alerts\<close>

text \<open>
  Claim C1 says that a zero or unset threshold never leads to an alert, whatever the
  floor is. The guard of line 103 is \<open>(not threshold) and min_events\<close>: it returns only
  when the floor is set and not zero. With threshold 0 and floor 0 (or both unset), a
  count of 10 and a steady history whose baseline is 1 event per minute, the function
  goes on to the comparison, \<open>10 / 1 * 100 > 0\<close> holds, and \<open>Alert.maybe_alert\<close> is
  called.
\<close>

theorem zero_threshold_zero_floor_alerts:
  "check_project_alerts 15 Map.empty (Some 0, Some 0) (steady_store 0 15) 1 0 10 =
     Inr (MaybeAlert 1 1 10) \<and>
   check_project_alerts 15 Map.empty (None, None) (steady_store 0 15) 1 0 10 =
     Inr (MaybeAlert 1 1 10)"
  unfolding check_project_alerts_def cmp_steady_15
  by (simp add: get_alert_pct_def truthy_def opt_gt_int_def real_gt_opt_def
      float_mul_def float_div_def float_of_int_def rnd_numeral)

text \<open>
  Claim C8: when the count is strictly below the floor the function returns without an
  alert; when the count equals the floor (and the threshold is set) the floor check lets
  the call through, and its result is that of the comparison with the history.
\<close>

theorem below_floor_no_alert:
  assumes "get_alert_pct options dflt pid = (threshold, Some m)"
  shows "(c < m \<longrightarrow> check_project_alerts mn options dflt store pid whn c = Inr NoAlert) \<and>
         (c = m \<longrightarrow> truthy threshold \<longrightarrow>
            check_project_alerts mn options dflt store pid whn c =
            compare_with_history mn store pid whn c threshold)"
  using assms by (simp add: check_project_alerts_def opt_gt_int_def)

text \<open>
  Claim C8 at a floor of 100 over the steady history of 15 events per bucket: a count of
  99 returns, a count of 100 reaches the comparison and alerts.
\<close>

theorem below_floor_no_alert_witness:
  "get_alert_pct Map.empty (Some 500, Some 100) 1 = (Some 500, Some 100) \<and>
   (99::int) < 100 \<and> truthy (Some 500) \<and>
   check_project_alerts 15 Map.empty (Some 500, Some 100) (steady_store 0 15) 1 0 99 = Inr NoAlert \<and>
   check_project_alerts 15 Map.empty (Some 500, Some 100) (steady_store 0 15) 1 0 100 =
     Inr (MaybeAlert 1 1 100)"
proof -
  have cfg: "get_alert_pct Map.empty (Some 500, Some 100) 1 = (Some 500, Some 100)"
    by (simp add: get_alert_pct_def)
  have tr: "truthy (Some 500)" by (simp add: truthy_def)
  have cmp: "compare_with_history 15 (steady_store 0 15) 1 0 100 (Some 500) = Inr (MaybeAlert 1 1 100)"
    unfolding cmp_steady_15
    by (simp add: real_gt_opt_def float_mul_def float_div_def float_of_int_def rnd_numeral)
  show ?thesis
    using cfg tr cmp
      below_floor_no_alert [OF cfg, of 99 15 "steady_store 0 15" 0]
      below_floor_no_alert [OF cfg, of 100 15 "steady_store 0 15" 0]
    by simp
qed

text \<open>
  Claim C4: when the historical query does not return exactly 8 data points (fewer or
  more), the function returns without an alert, and it does not raise.
\<close>

theorem insufficient_history_no_alert:
  assumes "length (historical_data mn store pid whn) \<noteq> 8"
  shows "check_project_alerts mn options dflt store pid whn c = Inr NoAlert"
proof -
  have "compare_with_history mn store pid whn c threshold = Inr NoAlert" for threshold
    using assms by (simp add: compare_with_history_def Let_def intervals_def)
  then show ?thesis
    by (simp add: check_project_alerts_def split: prod.splits)
qed

text \<open>
  Claim C4 on an empty table.
\<close>

theorem insufficient_history_no_alert_witness:
  "length (historical_data 15 [] 1 0) \<noteq> 8 \<and>
   check_project_alerts 15 Map.empty (Some 500, Some 100) [] 1 0 150 = Inr NoAlert"
proof -
  have h: "length (historical_data 15 [] 1 0) \<noteq> 8"
    by (simp add: historical_data_def Let_def)
  show ?thesis using h insufficient_history_no_alert [OF h] by simp
qed

section \<open>The baseline and the ratio\<close>







text \<open>
  Claim C10: the historical query has no condition on the count, so 8 buckets with zero
  counts in the lookback range are 8 data points. Then \<open>meanstdv\<close> returns mean 0 and
  standard deviation 0, the baseline \<open>previous\<close> is 0, and a call that passes the two
  guards is not stopped as insufficient history: it reaches the division by
  \<open>previous\<close>, which raises.
\<close>

theorem zero_history_reaches_ratio:
  assumes cfg: "get_alert_pct options dflt pid = (threshold, min_events)"
    and thr: "truthy threshold" and floor: "\<not> opt_gt_int min_events c"
    and rows: "filter (\<lambda>r. project_id r = pid \<and> date r < whn - timedelta_minutes mn \<and>
                 date r \<ge> whn - timedelta_minutes mn - timedelta_minutes (8 * mn)) store = rows"
    and len: "length rows = 8"
    and zero: "\<forall>r \<in> set rows. times_seen r = 0"
    and mn: "mn \<noteq> 0"
  shows "historical_data mn store pid whn = [0, 0, 0, 0, 0, 0, 0, 0] \<and>
         meanstdv (historical_data mn store pid whn) = Inr (0, 0) \<and>
         previous_rate mn (historical_data mn store pid whn) = Inr 0 \<and>
         check_project_alerts mn options dflt store pid whn c = Inl ZeroDivisionError"
proof -
  have "historical_data mn store pid whn = map times_seen rows"
    using rows by (simp add: historical_data_def Let_def intervals_def)
  also have "\<dots> = replicate 8 0"
    using map_all_zero [OF zero] len by simp
  finally have hist: "historical_data mn store pid whn = [0, 0, 0, 0, 0, 0, 0, 0]"
    by (simp only: replicate_eight)
  have ms: "meanstdv [0, 0, 0, 0, 0, 0, 0, 0] = Inr (0, 0)"
    using meanstdv_const8 [of 0] by simp
  have prev: "previous_rate mn [0, 0, 0, 0, 0, 0, 0, 0] = Inr 0"
    unfolding previous_rate_def ms using mn
    by (simp add: float_div_def float_add_def float_mul_def rnd_zero)
  have cmp: "compare_with_history mn store pid whn c threshold = Inl ZeroDivisionError"
    unfolding compare_with_history_def Let_def hist prev by (simp add: intervals_def)
  have "check_project_alerts mn options dflt store pid whn c = Inl ZeroDivisionError"
    using cfg thr floor cmp by (simp add: check_project_alerts_def)
  with hist ms prev show ?thesis by simp
qed

text \<open>
  Claim C10 on the steady history with count 0: the scheduler's query skips these rows,
  the historical query returns all eight.
\<close>

theorem zero_history_reaches_ratio_witness:
  "get_alert_pct Map.empty (Some 500, Some 100) 1 = (Some 500, Some 100) \<and>
   truthy (Some 500) \<and> \<not> opt_gt_int (Some 100) 150 \<and>
   length (steady_store 0 0) = 8 \<and>
   map times_seen (steady_store 0 0) = [0, 0, 0, 0, 0, 0, 0, 0] \<and>
   (15::int) \<noteq> 0 \<and> current_rows 15 0 (steady_store 0 0) = [] \<and>
   historical_data 15 (steady_store 0 0) 1 0 = [0, 0, 0, 0, 0, 0, 0, 0] \<and>
   previous_rate 15 (historical_data 15 (steady_store 0 0) 1 0) = Inr 0 \<and>
   check_project_alerts 15 Map.empty (Some 500, Some 100) (steady_store 0 0) 1 0 150 =
     Inl ZeroDivisionError"
proof -
  have cfg: "get_alert_pct Map.empty (Some 500, Some 100) 1 = (Some 500, Some 100)"
    by (simp add: get_alert_pct_def)
  have thr: "truthy (Some 500)" by (simp add: truthy_def)
  have floor: "\<not> opt_gt_int (Some 100) 150" by (simp add: opt_gt_int_def)
  have len: "length (steady_store 0 0) = 8" by (simp add: steady_store_def)
  have zero: "\<forall>r \<in> set (steady_store 0 0). times_seen r = 0" by (simp add: steady_store_def)
  have mn: "(15::int) \<noteq> 0" by simp
  have counts: "map times_seen (steady_store 0 0) = [0, 0, 0, 0, 0, 0, 0, 0]"
    by (simp add: steady_store_def)
  have cur: "current_rows 15 0 (steady_store 0 0) = []"
    by (simp add: current_rows_def steady_store_def)
  show ?thesis
    using cfg thr floor len counts mn cur
      zero_history_reaches_ratio [OF cfg thr floor steady_rows len zero mn]
    by blast
qed

text \<open>
  Claim C2 says that the ratio computation is guarded against a baseline of zero.
  Line 129 divides by \<open>previous\<close> with no guard: with threshold 500, floor 100, a
  count of 150 and eight historical buckets of count 0, the call raises
  \<open>ZeroDivisionError\<close>.
\<close>

theorem zero_baseline_raises:
  "check_project_alerts 15 Map.empty (Some 500, Some 100) (steady_store 0 0) 1 0 150 =
     Inl ZeroDivisionError"
  unfolding check_project_alerts_def cmp_steady_0
  by (simp add: get_alert_pct_def truthy_def opt_gt_int_def)

section \<open>The scheduler tick\<close>

text \<open>
  Claim C9 says that the bucket of every task is dated within the last
  \<open>MINUTE_NORMALIZATION\<close> minutes before the tick. The query of lines 75 to 78 has no
  upper bound on the date: a bucket of 40 events dated one minute after the tick gets a
  task (with count 0, through the seconds field of a negative time difference).
\<close>

theorem future_bucket_gets_task:
  "check_alerts 15 0 [\<lparr>project_id = 1, date = 60000000, times_seen = 40\<rparr>] =
     [\<lparr>task_project_id = 1, task_when = 0, task_count = 0, task_expires = 120\<rparr>] \<and>
   (0::int) < date \<lparr>project_id = 1, date = 60000000, times_seen = 40\<rparr>"
  by (simp add: check_alerts_def current_rows_def timedelta_minutes_def
      normalized_count_exact seconds_def)

text \<open>
  Claim C9, amended: every task submitted by a tick carries \<open>expires = 120\<close> and the
  tick time, and corresponds to a row of the table whose count is greater than zero and
  whose date is later than \<open>MINUTE_NORMALIZATION\<close> minutes before the tick time (the
  only date condition of the query: the date is not bounded from above); there is
  exactly one task per matching row, in the order of the rows.
\<close>

theorem check_alerts_tasks:
  "(\<forall>t \<in> set (check_alerts mn whn store).
      task_expires t = 120 \<and> task_when t = whn \<and>
      (\<exists>r \<in> set store. times_seen r > 0 \<and> date r > whn - timedelta_minutes mn \<and>
          task_project_id t = project_id r \<and>
          task_count t = normalized_count whn (date r) (times_seen r))) \<and>
   length (check_alerts mn whn store) =
     length (filter (\<lambda>r. times_seen r > 0 \<and> date r > whn - timedelta_minutes mn) store) \<and>
   map task_project_id (check_alerts mn whn store) =
     map project_id (filter (\<lambda>r. times_seen r > 0 \<and> date r > whn - timedelta_minutes mn) store)"
proof -
  have rows: "current_rows mn whn store =
      filter (\<lambda>r. times_seen r > 0 \<and> date r > whn - timedelta_minutes mn) store"
    unfolding current_rows_def by (rule filter_cong) auto
  have a: "\<forall>t \<in> set (check_alerts mn whn store).
      task_expires t = 120 \<and> task_when t = whn \<and>
      (\<exists>r \<in> set store. times_seen r > 0 \<and> date r > whn - timedelta_minutes mn \<and>
          task_project_id t = project_id r \<and>
          task_count t = normalized_count whn (date r) (times_seen r))"
    unfolding check_alerts_def rows by auto
  have b: "length (check_alerts mn whn store) =
     length (filter (\<lambda>r. times_seen r > 0 \<and> date r > whn - timedelta_minutes mn) store)"
    unfolding check_alerts_def rows by simp
  have c: "map task_project_id (check_alerts mn whn store) =
     map project_id (filter (\<lambda>r. times_seen r > 0 \<and> date r > whn - timedelta_minutes mn) store)"
    unfolding check_alerts_def rows by (simp add: comp_def)
  from a b c show ?thesis by blast
qed

text \<open>
  Claim C9 on a table of three rows: one matches, one has count 0, one is 15 minutes
  old.
\<close>

theorem check_alerts_tasks_witness:
  "check_alerts 15 60000000
     [\<lparr>project_id = 1, date = 0, times_seen = 40\<rparr>,
      \<lparr>project_id = 2, date = 0, times_seen = 0\<rparr>,
      \<lparr>project_id = 3, date = - 900000000, times_seen = 7\<rparr>] =
     [\<lparr>task_project_id = 1, task_when = 60000000, task_count = 39, task_expires = 120\<rparr>] \<and>
   length (check_alerts 15 60000000
     [\<lparr>project_id = 1, date = 0, times_seen = 40\<rparr>,
      \<lparr>project_id = 2, date = 0, times_seen = 0\<rparr>,
      \<lparr>project_id = 3, date = - 900000000, times_seen = 7\<rparr>]) = 1"
proof -
  have "check_alerts 15 60000000
     [\<lparr>project_id = 1, date = 0, times_seen = 40\<rparr>,
      \<lparr>project_id = 2, date = 0, times_seen = 0\<rparr>,
      \<lparr>project_id = 3, date = - 900000000, times_seen = 7\<rparr>] =
     [\<lparr>task_project_id = 1, task_when = 60000000, task_count = 39, task_expires = 120\<rparr>]"
    by (simp add: check_alerts_def current_rows_def timedelta_minutes_def
        normalized_count_exact seconds_def)
  then show ?thesis
    using check_alerts_tasks [of 15 60000000 "[\<lparr>project_id = 1, date = 0, times_seen = 40\<rparr>,
      \<lparr>project_id = 2, date = 0, times_seen = 0\<rparr>,
      \<lparr>project_id = 3, date = - 900000000, times_seen = 7\<rparr>]"]
    by simp
qed

text \<open>
  Claim C3 says that the submitted count is raw_count / ceil(elapsed_seconds / 60),
  truncated. For a bucket of 40 events read 30 seconds after its date the tick submits
  77 (\<open>int(40 / (31 / 60))\<close>), the formula of the claim gives 40.
\<close>

theorem normalized_count_not_spec_formula:
  "map task_count (check_alerts 15 30000000 [\<lparr>project_id = 1, date = 0, times_seen = 40\<rparr>]) = [77] \<and>
   seconds (30000000 - 0) = 30 \<and> spec_normalized_rate 40 30 = 40"
proof -
  have "\<lceil>(1::real) / 2\<rceil> = 1" by (simp add: ceiling_eq_iff)
  then have "spec_normalized_rate 40 30 = 40"
    by (simp add: spec_normalized_rate_def py_int_def)
  then show ?thesis
    by (simp add: check_alerts_def current_rows_def timedelta_minutes_def
        normalized_count_exact seconds_def)
qed

text \<open>
  Claim C3, amended: for every row the tick processes (counts up to \<open>2 ^ 45\<close>), the
  submitted count is \<open>raw_count / ((s + 1) / 60)\<close> computed in double arithmetic and
  truncated, where \<open>s\<close> is the seconds field of the time between the date of the bucket
  and the tick. It is the integer quotient \<open>raw_count * 60 div (s + 1)\<close> whenever
  \<open>s + 1\<close> does not divide \<open>raw_count * 60\<close>, and that quotient or one less when it
  does (the two roundings can leave the double just below the integer).
\<close>

theorem check_alerts_normalized_count:
  assumes "\<forall>r \<in> set store. times_seen r \<le> 2 ^ 45"
  shows "list_all2
     (\<lambda>t r. task_count t =
               py_int (float_div (float_of_int (times_seen r))
                         (int_true_div (seconds (whn - date r) + 1) 60)) \<and>
            ((60 * times_seen r) mod (seconds (whn - date r) + 1) \<noteq> 0 \<longrightarrow>
               task_count t = (60 * times_seen r) div (seconds (whn - date r) + 1)) \<and>
            (task_count t = (60 * times_seen r) div (seconds (whn - date r) + 1) \<or>
             ((60 * times_seen r) mod (seconds (whn - date r) + 1) = 0 \<and>
              task_count t = (60 * times_seen r) div (seconds (whn - date r) + 1) - 1)))
     (check_alerts mn whn store) (current_rows mn whn store)"
proof -
  have "\<forall>r \<in> set (current_rows mn whn store). 0 \<le> times_seen r \<and> times_seen r \<le> 2 ^ 45"
    using assms by (auto simp: current_rows_def)
  then show ?thesis
    unfolding check_alerts_def list_all2_map1 list_all2_same
    using normalized_count_window [of _ whn] 
    by (auto simp: normalized_count_def)
qed

text \<open>
  Claim C3 on two buckets read 30 seconds after their date: 40 events give 77 (31 does
  not divide 2400), 31 events give 59, one less than the quotient 60.
\<close>

theorem check_alerts_normalized_count_witness:
  "times_seen \<lparr>project_id = 1, date = 0, times_seen = 40\<rparr> \<le> 2 ^ 45 \<and>
   times_seen \<lparr>project_id = 2, date = 0, times_seen = 31\<rparr> \<le> 2 ^ 45 \<and>
   map task_count (check_alerts 15 30000000
     [\<lparr>project_id = 1, date = 0, times_seen = 40\<rparr>,
      \<lparr>project_id = 2, date = 0, times_seen = 31\<rparr>]) = [77, 59] \<and>
   (60 * 40) mod (31::int) \<noteq> 0 \<and> (60 * 40) div (31::int) = 77 \<and>
   (60 * 31) mod (31::int) = 0 \<and> (60 * 31) div (31::int) - 1 = 59"
proof -
  have h: "\<forall>r \<in> set [\<lparr>project_id = 1, date = 0, times_seen = 40\<rparr>,
      \<lparr>project_id = 2, date = 0, times_seen = 31\<rparr>]. times_seen r \<le> 2 ^ 45"
    by simp
  have v: "map task_count (check_alerts 15 30000000
     [\<lparr>project_id = 1, date = 0, times_seen = 40\<rparr>,
      \<lparr>project_id = 2, date = 0, times_seen = 31\<rparr>]) = [77, 59]"
    by (simp add: check_alerts_def current_rows_def timedelta_minutes_def
        normalized_31_30 normalized_count_exact seconds_def)
  show ?thesis using v check_alerts_normalized_count [OF h, of 30000000 15] by simp
qed

text \<open>
  Claim C7: for a fixed count that is not negative, and two buckets in the window of
  the tick, neither dated after the tick, the older bucket (more elapsed seconds) gets
  the smaller or equal normalized count. The window \<open>MINUTE_NORMALIZATION\<close> is taken to
  be at most a day (1440 minutes), so that the seconds field of the elapsed time is the
  elapsed time in whole seconds.
\<close>

theorem normalized_count_nonincreasing:
  assumes c: "0 \<le> c" and mn: "mn \<le> 1440"
    and order: "date2 \<le> date1" and past: "date1 \<le> whn"
    and window: "whn - timedelta_minutes mn < date2"
  shows "normalized_count whn date2 c \<le> normalized_count whn date1 c"
proof -
  have "timedelta_minutes mn \<le> 86400000000"
    using mn by (simp add: timedelta_minutes_def)
  then have "whn - date2 < 86400000000" using window by linarith
  moreover have "0 \<le> whn - date1" "whn - date1 \<le> whn - date2"
    using order past by simp_all
  ultimately have "seconds (whn - date1) \<le> seconds (whn - date2)"
    by (intro seconds_mono)
  then show ?thesis using c by (intro normalized_count_mono)
qed

text \<open>
  Claim C7 for 40 events: 60 elapsed seconds give 39, 30 elapsed seconds give 77.
\<close>

theorem normalized_count_nonincreasing_witness:
  "(0::int) \<le> 40 \<and> (15::int) \<le> 1440 \<and> (0::int) \<le> 30000000 \<and> (30000000::int) \<le> 60000000 \<and>
   60000000 - timedelta_minutes 15 < 0 \<and>
   normalized_count 60000000 0 40 \<le> normalized_count 60000000 30000000 40 \<and>
   normalized_count 60000000 0 40 = 39 \<and> normalized_count 60000000 30000000 40 = 77"
proof -
  have h: "(0::int) \<le> 40" "(15::int) \<le> 1440" "(0::int) \<le> 30000000"
    "(30000000::int) \<le> 60000000" "60000000 - timedelta_minutes 15 < 0"
    by (simp_all add: timedelta_minutes_def)
  have v: "normalized_count 60000000 0 40 = 39" "normalized_count 60000000 30000000 40 = 77"
    by (simp_all add: normalized_count_exact seconds_def)
  show ?thesis using h v normalized_count_nonincreasing [OF h] by simp
qed

end
